theory Spec2Isabelle
  imports Main
begin

section \<open>JavaScript values and strings\<close>

text \<open>
  The monitor is a single JavaScript file, \<^verbatim>\<open>uptimemonitoringbot.js\<close>. Its configuration is
  parsed JSON, so an optional field such as \<^verbatim>\<open>timeoutMs\<close> can hold any JSON value. The
  values that matter for \<^verbatim>\<open>a || b\<close> are modelled by \<open>jsval\<close>; numbers are integers
  (every non-zero number, integral or not, is truthy).
\<close>

datatype jsval = JUndefined | JNull | JBool bool | JNum int | JStr string

fun truthy :: "jsval \<Rightarrow> bool" where
  "truthy JUndefined = False"
| "truthy JNull = False"
| "truthy (JBool b) = b"
| "truthy (JNum n) = (n \<noteq> 0)"
| "truthy (JStr s) = (s \<noteq> [])"

text \<open>\<^verbatim>\<open>a || b\<close> on arbitrary values.\<close>

definition js_or :: "jsval \<Rightarrow> jsval \<Rightarrow> jsval" where
  "js_or a b = (if truthy a then a else b)"

text \<open>
  \<^verbatim>\<open>a || "literal"\<close> where \<open>a\<close> is an optional string: \<open>None\<close> is \<^verbatim>\<open>undefined\<close>, and the
  empty string is falsy as well.
\<close>

definition str_or :: "string option \<Rightarrow> string \<Rightarrow> string" where
  "str_or a d = (case a of None \<Rightarrow> d | Some s \<Rightarrow> if s \<noteq> [] then s else d)"

text \<open>Decimal rendering of numbers inside template literals.\<close>

definition digit_char :: "nat \<Rightarrow> char" where
  "digit_char d = ''0123456789'' ! (d mod 10)"

fun show_nat :: "nat \<Rightarrow> string" where
  "show_nat n = (if n < 10 then [digit_char n] else show_nat (n div 10) @ [digit_char (n mod 10)])"

definition show_int :: "int \<Rightarrow> string" where
  "show_int i = (if i < 0 then CHR ''-'' # show_nat (nat (- i)) else show_nat (nat i))"

fun to_string :: "jsval \<Rightarrow> string" where
  "to_string JUndefined = ''undefined''"
| "to_string JNull = ''null''"
| "to_string (JBool b) = (if b then ''true'' else ''false'')"
| "to_string (JNum n) = show_int n"
| "to_string (JStr s) = s"

text \<open>
  Strings are byte lists; a character outside ASCII stands as its UTF-8 bytes. On the
  letters that the program compares after \<^verbatim>\<open>toLowerCase()\<close> (\<^verbatim>\<open>http://\<close>, \<^verbatim>\<open>tcp\<close>, \<^verbatim>\<open>udp\<close>) only
  the ASCII capitals map to them, so lower-casing is modelled on ASCII.
\<close>

definition lower_char :: "char \<Rightarrow> char" where
  "lower_char c =
     (case map_of (zip ''ABCDEFGHIJKLMNOPQRSTUVWXYZ'' ''abcdefghijklmnopqrstuvwxyz'') c of
        None \<Rightarrow> c
      | Some l \<Rightarrow> l)"

definition toLowerCase :: "string \<Rightarrow> string" where
  "toLowerCase s = map lower_char s"

definition startsWith :: "string \<Rightarrow> string \<Rightarrow> bool" where
  "startsWith s p = (take (length p) s = p)"

subsection \<open>Symbols of the message texts\<close>

definition sym_ok :: string where
  "sym_ok = [CHR 0xE2, CHR 0x9C, CHR 0x85]"

definition sym_cross :: string where
  "sym_cross = [CHR 0xE2, CHR 0x9D, CHR 0x8C]"

definition sym_warn :: string where
  "sym_warn = [CHR 0xE2, CHR 0x9A, CHR 0xA0, CHR 0xEF, CHR 0xB8, CHR 0x8F]"

definition sym_lock :: string where
  "sym_lock = [CHR 0xF0, CHR 0x9F, CHR 0x94, CHR 0x92]"

definition sym_clock :: string where
  "sym_clock = [CHR 0xE2, CHR 0x8F, CHR 0xB1, CHR 0xEF, CHR 0xB8, CHR 0x8F]"

definition sym_info :: string where
  "sym_info = [CHR 0xE2, CHR 0x84, CHR 0xB9, CHR 0xEF, CHR 0xB8, CHR 0x8F]"

definition sym_question :: string where
  "sym_question = [CHR 0xE2, CHR 0x9D, CHR 0x93]"

definition sym_dash :: string where
  "sym_dash = [CHR 0xE2, CHR 0x80, CHR 0x93]"

definition sym_ae :: string where
  "sym_ae = [CHR 0xC3, CHR 0xA4]"

definition sym_ue :: string where
  "sym_ue = [CHR 0xC3, CHR 0xBC]"

section \<open>Website check\<close>

text \<open>
  A website entry of \<^verbatim>\<open>config.json\<close>. The three states are the string literals
  \<^verbatim>\<open>"ok"\<close>, \<^verbatim>\<open>"tls_error"\<close> and \<^verbatim>\<open>"down"\<close> of the source.
\<close>

record website =
  w_name :: "string option"
  w_url :: string
  w_verifyTls :: jsval
  w_timeoutMs :: jsval
  w_id :: "string option"

datatype wstate = Ok | TlsError | Down

record probe_result =
  res_text :: string
  res_state :: wstate

text \<open>
  The error object a rejected \<^verbatim>\<open>fetch\<close> throws: \<^verbatim>\<open>err.code\<close>, \<^verbatim>\<open>err.name\<close>, \<^verbatim>\<open>err.message\<close>.
  node-fetch copies the code of the underlying system or TLS error, a string, or leaves
  it undefined.
\<close>

record js_error =
  err_code :: "string option"
  err_name :: "string option"
  err_message :: string

text \<open>What the awaited \<^verbatim>\<open>fetch\<close> does: it returns a response with a status, or throws.\<close>

datatype fetch_outcome = Response nat | Rejected js_error

definition website_timeoutMs :: "website \<Rightarrow> jsval" where
  "website_timeoutMs cfg = js_or (w_timeoutMs cfg) (JNum 5000)"

definition website_verifyTls :: "website \<Rightarrow> bool" where
  "website_verifyTls cfg = (w_verifyTls cfg \<noteq> JBool False)"

text \<open>The condition of the first \<^verbatim>\<open>if\<close> of the \<^verbatim>\<open>catch\<close> block.\<close>

definition is_tls_code :: "string option \<Rightarrow> bool" where
  "is_tls_code code =
     (case code of
        None \<Rightarrow> False
      | Some c \<Rightarrow> c \<noteq> [] \<and>
          (startsWith c ''CERT_'' \<or> c = ''UNABLE_TO_VERIFY_LEAF_SIGNATURE''
            \<or> c = ''DEPTH_ZERO_SELF_SIGNED_CERT''))"

definition site_label :: "website \<Rightarrow> string" where
  "site_label cfg = '' **'' @ str_or (w_name cfg) ''Unbenannt'' @ ''** ('' @ w_url cfg @ '') '' @ sym_dash @ '' ''"

definition checkWebsite :: "website \<Rightarrow> fetch_outcome \<Rightarrow> probe_result" where
  "checkWebsite cfg outcome =
     (let url = w_url cfg; timeoutMs = website_timeoutMs cfg in
      case outcome of
        Response status \<Rightarrow>
          if startsWith (toLowerCase url) ''http://'' then
            if 200 \<le> status \<and> status < 400 then
              \<lparr>res_text = sym_warn @ site_label cfg @ ''HTTP '' @ show_nat status
                  @ '' (ohne TLS, evtl. unsicher)'',
               res_state = Down\<rparr>
            else
              \<lparr>res_text = sym_cross @ site_label cfg @ ''HTTP '' @ show_nat status @ '' (ohne TLS)'',
               res_state = Down\<rparr>
          else if 200 \<le> status \<and> status < 400 then
            \<lparr>res_text = sym_ok @ site_label cfg @ ''HTTP '' @ show_nat status, res_state = Ok\<rparr>
          else
            \<lparr>res_text = sym_cross @ site_label cfg @ ''HTTP '' @ show_nat status, res_state = Down\<rparr>
      | Rejected err \<Rightarrow>
          if is_tls_code (err_code err) then
            \<lparr>res_text = sym_lock @ sym_cross @ site_label cfg
                @ ''TLS/Zertifikatfehler (Website nicht sicher?) '' @ sym_dash @ '' ''
                @ (case err_code err of Some c \<Rightarrow> c | None \<Rightarrow> ''undefined''),
             res_state = TlsError\<rparr>
          else if err_name err = Some ''AbortError'' then
            \<lparr>res_text = sym_clock @ site_label cfg @ ''Timeout nach '' @ to_string timeoutMs @ ''ms'',
             res_state = Down\<rparr>
          else
            \<lparr>res_text = sym_cross @ site_label cfg @ ''Fehler: '' @ str_or (err_name err) ''Error''
                @ '': '' @ err_message err,
             res_state = Down\<rparr>)"

section \<open>Port checks\<close>

record port_cfg =
  p_name :: "string option"
  p_host :: string
  p_port :: nat
  p_protocol :: "string option"
  p_timeoutMs :: jsval

definition port_label :: "string \<Rightarrow> port_cfg \<Rightarrow> string" where
  "port_label proto cfg =
     '' **'' @ str_or (p_name cfg) ''Unbenannt'' @ ''** '' @ proto @ '' '' @ p_host cfg @ '':''
       @ show_nat (p_port cfg) @ '' '' @ sym_dash @ '' ''"

text \<open>\<^verbatim>\<open>err.code || err.message\<close>\<close>

definition err_detail :: "js_error \<Rightarrow> string" where
  "err_detail err = str_or (err_code err) (err_message err)"

text \<open>
  What an \<^verbatim>\<open>await\<close> on the promise of a probe does: it returns the resolved value, it
  throws because the promise was rejected, or it never returns because the promise stays
  pending. Both probes run inside the executor of \<^verbatim>\<open>new Promise\<close>, where nothing is caught:
  a call that throws there rejects the promise.
\<close>

datatype 'a awaited = Returned 'a | Threw | Pending

text \<open>
  The argument checks of Node that throw synchronously: \<^verbatim>\<open>socket.setTimeout\<close> takes a
  number that is not negative, \<^verbatim>\<open>socket.connect\<close> a port up to 65535, and \<^verbatim>\<open>socket.send\<close> of a
  datagram socket a port from 1 to 65535.
\<close>

definition setTimeout_accepts :: "jsval \<Rightarrow> bool" where
  "setTimeout_accepts t = (case t of JNum n \<Rightarrow> 0 \<le> n | _ \<Rightarrow> False)"

definition connect_accepts :: "nat \<Rightarrow> bool" where
  "connect_accepts port = (port < 65536)"

definition send_accepts :: "nat \<Rightarrow> bool" where
  "send_accepts port = (0 < port \<and> port < 65536)"

subsection \<open>TCP\<close>

text \<open>
  Each attempt creates a socket, arms its idle timeout, registers one-shot listeners for
  \<^verbatim>\<open>error\<close>, \<^verbatim>\<open>connect\<close> and \<^verbatim>\<open>timeout\<close>, and connects. When \<^verbatim>\<open>socket.setTimeout\<close> or
  \<^verbatim>\<open>socket.connect\<close> refuses its argument the attempt throws, no event follows and the
  promise is rejected. Otherwise the first of the three events to fire runs \<^verbatim>\<open>cleanup()\<close>,
  which removes all three listeners and destroys the socket, so one event decides an
  attempt. The environment says which event that is for attempt \<open>tryNumber\<close>. The calls
  made on the sockets until the promise is settled are recorded next to what the promise
  does; what a socket left open by a throw does afterwards is not followed.
\<close>

datatype tcp_event = OnConnect | OnError js_error | OnTimeout

datatype sock_call = SetTimeout jsval | Connect nat string | Destroy

definition tcp_timeoutMs :: "port_cfg \<Rightarrow> jsval" where
  "tcp_timeoutMs cfg = js_or (p_timeoutMs cfg) (JNum 3000)"

definition tcp_open :: "port_cfg \<Rightarrow> sock_call list" where
  "tcp_open cfg = [SetTimeout (tcp_timeoutMs cfg), Connect (p_port cfg) (p_host cfg)]"

definition tcp_unreachable :: "port_cfg \<Rightarrow> js_error \<Rightarrow> string" where
  "tcp_unreachable cfg err =
     sym_cross @ port_label ''TCP'' cfg @ ''nicht erreichbar ('' @ err_detail err @ '')''"

definition tcp_reachable :: "port_cfg \<Rightarrow> string" where
  "tcp_reachable cfg = sym_ok @ port_label ''TCP'' cfg @ ''erreichbar''"

definition tcp_timed_out :: "port_cfg \<Rightarrow> string" where
  "tcp_timed_out cfg =
     sym_clock @ port_label ''TCP'' cfg @ ''Timeout nach '' @ to_string (tcp_timeoutMs cfg)
       @ ''ms (nach Retry)''"

function attempt ::
  "port_cfg \<Rightarrow> (nat \<Rightarrow> tcp_event) \<Rightarrow> nat \<Rightarrow> sock_call list \<times> string awaited" where
  "attempt cfg env tryNumber =
     (if \<not> setTimeout_accepts (tcp_timeoutMs cfg) then ([SetTimeout (tcp_timeoutMs cfg)], Threw)
      else if \<not> connect_accepts (p_port cfg) then (tcp_open cfg, Threw)
      else
        case env tryNumber of
          OnError err \<Rightarrow> (tcp_open cfg @ [Destroy], Returned (tcp_unreachable cfg err))
        | OnConnect \<Rightarrow> (tcp_open cfg @ [Destroy], Returned (tcp_reachable cfg))
        | OnTimeout \<Rightarrow>
            if tryNumber = 1 then
              (tcp_open cfg @ [Destroy] @ fst (attempt cfg env 2), snd (attempt cfg env 2))
            else (tcp_open cfg @ [Destroy], Returned (tcp_timed_out cfg)))"
  by pat_completeness auto
termination
  by (relation "measure (\<lambda>(cfg, env, tryNumber). if tryNumber = 1 then 1 else 0)") auto

definition checkTcpPort ::
  "port_cfg \<Rightarrow> (nat \<Rightarrow> tcp_event) \<Rightarrow> sock_call list \<times> string awaited" where
  "checkTcpPort cfg env = attempt cfg env 1"

subsection \<open>UDP\<close>

text \<open>
  The probe registers an \<^verbatim>\<open>error\<close> listener and sends one empty datagram; the send
  callback either reports an error or arms a timer of \<^verbatim>\<open>timeoutMs\<close>. No \<^verbatim>\<open>message\<close> listener
  is registered, so a reply is not an event of the probe. The handlers share the flag
  \<^verbatim>\<open>finished\<close>; \<open>resolved\<close> lists the calls of \<^verbatim>\<open>resolve\<close> and \<open>closes\<close> counts \<^verbatim>\<open>socket.close()\<close>.
  When \<^verbatim>\<open>socket.send\<close> refuses the port it throws before anything is sent: the promise is
  \<open>rejected\<close>, the callback is never invoked and the socket is left open.
\<close>

datatype udp_event = SocketError js_error | SendCallback "js_error option" | TimerFired

record udp_state =
  finished :: bool
  resolved :: "string list"
  closes :: nat
  timer :: "jsval option"
  rejected :: bool

definition udp_timeoutMs :: "port_cfg \<Rightarrow> jsval" where
  "udp_timeoutMs cfg = js_or (p_timeoutMs cfg) (JNum 3000)"

definition udp_done :: "string \<Rightarrow> udp_state \<Rightarrow> udp_state" where
  "udp_done msg s =
     (if \<not> finished s then
        s\<lparr>finished := True, closes := Suc (closes s), resolved := resolved s @ [msg]\<rparr>
      else s)"

definition udp_socket_error :: "port_cfg \<Rightarrow> js_error \<Rightarrow> string" where
  "udp_socket_error cfg err = sym_cross @ port_label ''UDP'' cfg @ ''Fehler: '' @ err_detail err"

definition udp_send_error :: "port_cfg \<Rightarrow> js_error \<Rightarrow> string" where
  "udp_send_error cfg err =
     sym_cross @ port_label ''UDP'' cfg @ ''Fehler beim Senden: '' @ err_detail err"

definition udp_no_response :: "port_cfg \<Rightarrow> string" where
  "udp_no_response cfg =
     sym_info @ port_label ''UDP'' cfg @ ''Paket gesendet, keine Antwort (UDP schwer zuverl''
       @ sym_ae @ ''ssig zu pr'' @ sym_ue @ ''fen)''"

fun udp_handle :: "port_cfg \<Rightarrow> udp_event \<Rightarrow> udp_state \<Rightarrow> udp_state" where
  "udp_handle cfg (SocketError err) s = udp_done (udp_socket_error cfg err) s"
| "udp_handle cfg (SendCallback (Some err)) s = udp_done (udp_send_error cfg err) s"
| "udp_handle cfg (SendCallback None) s = s\<lparr>timer := Some (udp_timeoutMs cfg)\<rparr>"
| "udp_handle cfg TimerFired s =
     (case timer s of None \<Rightarrow> s | Some t \<Rightarrow> udp_done (udp_no_response cfg) (s\<lparr>timer := None\<rparr>))"

fun udp_run :: "port_cfg \<Rightarrow> udp_event list \<Rightarrow> udp_state \<Rightarrow> udp_state" where
  "udp_run cfg [] s = s"
| "udp_run cfg (e # es) s = udp_run cfg es (udp_handle cfg e s)"

text \<open>
  What the network does during one probe: socket errors that arrive before the send
  callback, the argument of the send callback (which Node always invokes once it has
  accepted the send), and socket errors that arrive while the timer runs. An armed timer
  always fires.
\<close>

record udp_env =
  errors_before :: "js_error list"
  send_result :: "js_error option"
  errors_waiting :: "js_error list"

definition udp_events :: "udp_env \<Rightarrow> udp_event list" where
  "udp_events env =
     map SocketError (errors_before env) @ [SendCallback (send_result env)]
       @ map SocketError (errors_waiting env) @ [TimerFired]"

definition udp_init :: udp_state where
  "udp_init = \<lparr>finished = False, resolved = [], closes = 0, timer = None, rejected = False\<rparr>"

definition checkUdpPort :: "port_cfg \<Rightarrow> udp_env \<Rightarrow> udp_state" where
  "checkUdpPort cfg env =
     (if \<not> send_accepts (p_port cfg) then udp_init\<lparr>rejected := True\<rparr>
      else udp_run cfg (udp_events env) udp_init)"

text \<open>What awaiting the promise of the probe does.\<close>

definition udp_awaited :: "udp_state \<Rightarrow> string awaited" where
  "udp_awaited s =
     (if rejected s then Threw
      else case resolved s of [] \<Rightarrow> Pending | msg # _ \<Rightarrow> Returned msg)"

subsection \<open>Choice of the probe by protocol\<close>

datatype probe_kind = TcpProbe | UdpProbe

record port_env =
  tcp_net :: "nat \<Rightarrow> tcp_event"
  udp_net :: udp_env

definition unknown_protocol :: "port_cfg \<Rightarrow> string \<Rightarrow> string" where
  "unknown_protocol cfg proto =
     sym_question @ '' **'' @ str_or (p_name cfg) ''Unbenannt'' @ ''** '' @ sym_dash
       @ '' unbekanntes Protokoll: '' @ proto"

text \<open>
  The body of the loop over \<^verbatim>\<open>PORTS\<close>: the probe that was run, if any, and what the
  \<^verbatim>\<open>await\<close> of its text does.
\<close>

definition port_check :: "port_cfg \<Rightarrow> port_env \<Rightarrow> probe_kind option \<times> string awaited" where
  "port_check cfg env =
     (let proto = toLowerCase (str_or (p_protocol cfg) ''tcp'') in
      if proto = ''tcp'' then (Some TcpProbe, snd (checkTcpPort cfg (tcp_net env)))
      else if proto = ''udp'' then (Some UdpProbe, udp_awaited (checkUdpPort cfg (udp_net env)))
      else (None, Returned (unknown_protocol cfg proto)))"

section \<open>Monitoring cycle\<close>

type_synonym handle = nat

text \<open>
  The calls that leave the cycle are recorded in \<open>events\<close>: the two alert functions when
  they are invoked, and the Discord operations \<^verbatim>\<open>client.users.fetch\<close>, \<^verbatim>\<open>ownerUser.send\<close>
  and \<^verbatim>\<open>statusMessage.edit\<close> when they are called.
\<close>

datatype event =
    ProblemAlert website probe_result
  | RecoveryAlert website probe_result
  | UsersFetch
  | OwnerSend string
  | MessageEdit handle string

text \<open>Whether Discord lets a fetch, a send (returning the new message) or an edit succeed.\<close>

record discord_env =
  dm_fetch :: bool
  dm_send :: "handle option"
  dm_edit :: bool

text \<open>
  The module-level variables. \<^verbatim>\<open>lastWebsiteStates\<close> is the object literal \<^verbatim>\<open>{}\<close>: its own
  properties are the map, and it inherits from \<^verbatim>\<open>Object.prototype\<close>.
\<close>

record bot =
  statusMessage :: "handle option"
  ownerUser :: bool
  lastWebsiteStates :: "string \<rightharpoonup> wstate"
  events :: "event list"

definition bot_init :: bot where
  "bot_init = \<lparr>statusMessage = None, ownerUser = False, lastWebsiteStates = Map.empty, events = []\<rparr>"

definition object_prototype_props :: "string list" where
  "object_prototype_props =
     [''constructor'', ''__proto__'', ''hasOwnProperty'', ''isPrototypeOf'',
      ''propertyIsEnumerable'', ''toLocaleString'', ''toString'', ''valueOf'',
      ''__defineGetter__'', ''__defineSetter__'', ''__lookupGetter__'', ''__lookupSetter__'']"

text \<open>
  The value of \<^verbatim>\<open>prevState\<close>: one of the three state strings, or a value inherited from
  \<^verbatim>\<open>Object.prototype\<close> (a function or an object: truthy, and equal to no string).
\<close>

datatype prev_state = Known wstate | Inherited

definition prevState_of :: "(string \<rightharpoonup> wstate) \<Rightarrow> string \<Rightarrow> prev_state" where
  "prevState_of m key =
     (case m key of
        Some s \<Rightarrow> Known s
      | None \<Rightarrow> if key \<in> set object_prototype_props then Inherited else Known Ok)"

text \<open>
  \<^verbatim>\<open>lastWebsiteStates[key] = result.state\<close>: an own property, except that assigning a
  string to \<^verbatim>\<open>__proto__\<close> runs the inherited setter, which ignores it.
\<close>

definition store_state :: "(string \<rightharpoonup> wstate) \<Rightarrow> string \<Rightarrow> wstate \<Rightarrow> (string \<rightharpoonup> wstate)" where
  "store_state m key s = (if key = ''__proto__'' then m else m(key \<mapsto> s))"

definition getWebsiteKey :: "website \<Rightarrow> nat \<Rightarrow> string" where
  "getWebsiteKey cfg index = str_or (w_id cfg) (show_nat index @ '':'' @ w_url cfg)"

definition nl :: string where
  "nl = [CHR 0x0A]"

definition log_event :: "event \<Rightarrow> bot \<Rightarrow> bot" where
  "log_event e st = st\<lparr>events := events st @ [e]\<rparr>"

definition alert_title :: "wstate \<Rightarrow> string" where
  "alert_title s =
     (if s = TlsError then sym_lock @ '' SSL / Zertifikatsproblem''
      else if s = Down then sym_warn @ '' Seite nicht erreichbar / Fehler''
      else sym_info @ '' Info'')"

text \<open>
  Both alert functions fetch the owner when it is not cached and return when that fails;
  a failing send is logged and swallowed.
\<close>

definition send_alert :: "string \<Rightarrow> discord_env \<Rightarrow> bot \<Rightarrow> bot" where
  "send_alert txt env st =
     (if \<not> ownerUser st then
        (if dm_fetch env then
           log_event (OwnerSend txt) ((log_event UsersFetch st)\<lparr>ownerUser := True\<rparr>)
         else log_event UsersFetch st)
      else log_event (OwnerSend txt) st)"

definition sendWebsiteProblemAlert :: "website \<Rightarrow> probe_result \<Rightarrow> discord_env \<Rightarrow> bot \<Rightarrow> bot" where
  "sendWebsiteProblemAlert cfg result env st =
     send_alert
       (alert_title (res_state result) @ nl
          @ ''**'' @ str_or (w_name cfg) ''Unbenannt'' @ ''** ('' @ w_url cfg @ '')'' @ nl
          @ res_text result)
       env (log_event (ProblemAlert cfg result) st)"

definition sendWebsiteRecoveryAlert :: "website \<Rightarrow> probe_result \<Rightarrow> discord_env \<Rightarrow> bot \<Rightarrow> bot" where
  "sendWebsiteRecoveryAlert cfg result env st =
     send_alert
       (sym_ok @ '' Recovery'' @ nl
          @ ''**'' @ str_or (w_name cfg) ''Unbenannt'' @ ''** ('' @ w_url cfg
          @ '') ist wieder erreichbar / ohne SSL-Fehler.'' @ nl
          @ res_text result)
       env (log_event (RecoveryAlert cfg result) st)"

text \<open>The body of the loop over \<^verbatim>\<open>WEBSITES\<close>, for the entry at index \<open>i\<close>.\<close>

definition website_step ::
  "nat \<Rightarrow> website \<Rightarrow> fetch_outcome \<times> discord_env \<Rightarrow> string list \<times> bot \<Rightarrow> string list \<times> bot" where
  "website_step i cfg env acc =
     (let result = checkWebsite cfg (fst env);
          lines = fst acc @ [''- '' @ res_text result];
          key = getWebsiteKey cfg i;
          prevState = prevState_of (lastWebsiteStates (snd acc)) key;
          st1 = (if res_state result \<noteq> Ok \<and> Known (res_state result) \<noteq> prevState
                 then sendWebsiteProblemAlert cfg result (snd env) (snd acc) else snd acc);
          st2 = (if res_state result = Ok \<and> prevState \<noteq> Known Ok
                 then sendWebsiteRecoveryAlert cfg result (snd env) st1 else st1)
      in (lines, st2\<lparr>lastWebsiteStates := store_state (lastWebsiteStates st2) key (res_state result)\<rparr>))"

fun website_loop ::
  "(nat \<Rightarrow> fetch_outcome \<times> discord_env) \<Rightarrow> nat \<Rightarrow> website list \<Rightarrow> string list \<times> bot
     \<Rightarrow> string list \<times> bot" where
  "website_loop env i [] acc = acc"
| "website_loop env i (cfg # cfgs) acc = website_loop env (Suc i) cfgs (website_step i cfg (env i) acc)"

fun port_loop ::
  "(nat \<Rightarrow> port_env) \<Rightarrow> nat \<Rightarrow> port_cfg list \<Rightarrow> string list \<Rightarrow> string list awaited" where
  "port_loop env i [] lines = Returned lines"
| "port_loop env i (cfg # cfgs) lines =
     (case snd (port_check cfg (env i)) of
        Returned res \<Rightarrow> port_loop env (Suc i) cfgs (lines @ [''- '' @ res])
      | Threw \<Rightarrow> Threw
      | Pending \<Rightarrow> Pending)"

subsection \<open>Pushing the report\<close>

text \<open>A step that can throw: the state it leaves behind either way.\<close>

datatype 'a completion = Normal 'a | Thrown 'a

text \<open>
  \<^verbatim>\<open>if (!ownerUser) ownerUser = await client.users.fetch(OWNER_ID);
  statusMessage = await ownerUser.send(content);\<close>
\<close>

definition send_status :: "string \<Rightarrow> discord_env \<Rightarrow> bot \<Rightarrow> bot completion" where
  "send_status content env st =
     (if \<not> ownerUser st \<and> \<not> dm_fetch env then Thrown (log_event UsersFetch st)
      else
        (let st1 = (if \<not> ownerUser st then (log_event UsersFetch st)\<lparr>ownerUser := True\<rparr> else st);
             st2 = log_event (OwnerSend content) st1
         in case dm_send env of
              None \<Rightarrow> Thrown st2
            | Some h \<Rightarrow> Normal (st2\<lparr>statusMessage := Some h\<rparr>)))"

definition pushReport :: "string \<Rightarrow> discord_env \<Rightarrow> bot \<Rightarrow> bot completion" where
  "pushReport content env st =
     (case statusMessage st of
        None \<Rightarrow> send_status content env st
      | Some h \<Rightarrow>
          if dm_edit env then Normal (log_event (MessageEdit h content) st)
          else send_status content env (log_event (MessageEdit h content) st))"

subsection \<open>The cycle and the start\<close>

record config =
  WEBSITES :: "website list"
  PORTS :: "port_cfg list"

text \<open>
  The two footer lines depend on the clock and on the rounded interval; they are given.
\<close>

record cycle_env =
  web_env :: "nat \<Rightarrow> fetch_outcome \<times> discord_env"
  ports_env :: "nat \<Rightarrow> port_env"
  footer :: "string list"
  push_env :: discord_env

fun join :: "string list \<Rightarrow> string" where
  "join [] = []"
| "join [x] = x"
| "join (x # y # zs) = x @ nl @ join (y # zs)"

definition websites_header :: string where
  "websites_header = [CHR 0xF0, CHR 0x9F, CHR 0x93, CHR 0xA1] @ '' **Webseiten-Status:**''"

definition ports_header :: string where
  "ports_header = [CHR 0xF0, CHR 0x9F, CHR 0x94, CHR 0x8C] @ '' **Port-Status:**''"

definition website_section :: "config \<Rightarrow> cycle_env \<Rightarrow> bot \<Rightarrow> string list \<times> bot" where
  "website_section conf env st =
     (if WEBSITES conf \<noteq> [] then
        (let r = website_loop (web_env env) 0 (WEBSITES conf) ([websites_header], st)
         in (fst r @ [[]], snd r))
      else ([], st))"

definition port_section :: "config \<Rightarrow> cycle_env \<Rightarrow> string list \<Rightarrow> string list awaited" where
  "port_section conf env lines =
     (if PORTS conf \<noteq> [] then
        (case port_loop (ports_env env) 0 (PORTS conf) (lines @ [ports_header]) of
           Returned ls \<Rightarrow> Returned (ls @ [[]])
         | Threw \<Rightarrow> Threw
         | Pending \<Rightarrow> Pending)
      else Returned lines)"

text \<open>
  \<open>None\<close>: the cycle never completes. An error thrown by an awaited port probe or while
  the report is pushed is caught and logged by the \<^verbatim>\<open>catch\<close> of the cycle; the variables
  keep what was assigned before, and after a throwing probe no report is pushed.
\<close>

definition doMonitoringCycle :: "config \<Rightarrow> cycle_env \<Rightarrow> bot \<Rightarrow> bot option" where
  "doMonitoringCycle conf env st =
     (let w = website_section conf env st in
      case port_section conf env (fst w) of
        Pending \<Rightarrow> None
      | Threw \<Rightarrow> Some (snd w)
      | Returned lines \<Rightarrow>
          Some (case pushReport (join (lines @ footer env)) (push_env env) (snd w) of
                  Normal s \<Rightarrow> s
                | Thrown s \<Rightarrow> s))"

text \<open>
  The \<^verbatim>\<open>try\<close> block of the \<^verbatim>\<open>ready\<close> handler: fetch the owner, delete the old messages
  (\<^verbatim>\<open>deleteOldBotMessages\<close> catches its own errors and assigns none of the variables
  modelled here once the owner is set), send the greeting and keep it as status message.
\<close>

definition on_ready :: "string \<Rightarrow> discord_env \<Rightarrow> bot \<Rightarrow> bot" where
  "on_ready greeting env st =
     (if \<not> dm_fetch env then log_event UsersFetch st
      else
        (let st1 = log_event (OwnerSend greeting) ((log_event UsersFetch st)\<lparr>ownerUser := True\<rparr>)
         in case dm_send env of
              None \<Rightarrow> st1
            | Some h \<Rightarrow> st1\<lparr>statusMessage := Some h\<rparr>))"

text \<open>The handler then awaits the first cycle.\<close>

definition first_cycle :: "config \<Rightarrow> string \<Rightarrow> discord_env \<Rightarrow> cycle_env \<Rightarrow> bot option" where
  "first_cycle conf greeting renv env = doMonitoringCycle conf env (on_ready greeting renv bot_init)"

subsection \<open>The timer\<close>

text \<open>
  The \<^verbatim>\<open>ready\<close> handler awaits the first cycle and then calls
  \<^verbatim>\<open>setInterval(doMonitoringCycle, CHECK_INTERVAL_MS)\<close>. The timer calls the function once
  per interval and drops the promise it returns; nothing waits for a cycle that is still
  suspended at one of its awaits. Times are in milliseconds. The clock of a run gives the
  time at which the first cycle starts, the delay of the timer, and for each cycle the
  time from its start until its last await has returned. Cycle 0 is the awaited first
  cycle; cycle \<open>k\<close> is started by the \<open>k\<close>-th tick.
\<close>

record clock =
  ready_at :: nat
  interval_ms :: nat
  took :: "nat \<Rightarrow> nat"

definition interval_set_at :: "clock \<Rightarrow> nat" where
  "interval_set_at c = ready_at c + took c 0"

definition cycle_start :: "clock \<Rightarrow> nat \<Rightarrow> nat" where
  "cycle_start c k = (if k = 0 then ready_at c else interval_set_at c + k * interval_ms c)"

definition cycle_end :: "clock \<Rightarrow> nat \<Rightarrow> nat" where
  "cycle_end c k = cycle_start c k + took c k"

text \<open>Two cycles overlap when each starts before the other has ended.\<close>

definition cycles_overlap :: "clock \<Rightarrow> nat \<Rightarrow> nat \<Rightarrow> bool" where
  "cycles_overlap c j k = (cycle_start c j < cycle_end c k \<and> cycle_start c k < cycle_end c j)"

text \<open>The cycles among the first \<open>n\<close> that are running at time \<open>t\<close>.\<close>

definition in_flight :: "clock \<Rightarrow> nat \<Rightarrow> nat \<Rightarrow> nat list" where
  "in_flight c n t = filter (\<lambda>k. cycle_start c k \<le> t \<and> t < cycle_end c k) [0..<n]"

section \<open>Observations on runs\<close>

text \<open>
  What \<^verbatim>\<open>checkWebsite\<close> hands to \<^verbatim>\<open>fetch\<close> and to the abort timer: the timer is armed with
  \<^verbatim>\<open>timeoutMs\<close>, and certificate validation is switched off when \<^verbatim>\<open>verifyTls\<close> is false.
\<close>

record request =
  req_url :: string
  req_abort_after :: jsval
  req_rejectUnauthorized :: bool

definition fetch_request :: "website \<Rightarrow> request" where
  "fetch_request cfg =
     \<lparr>req_url = w_url cfg, req_abort_after = website_timeoutMs cfg,
      req_rejectUnauthorized = website_verifyTls cfg\<rparr>"

text \<open>The number of \<^verbatim>\<open>socket.connect\<close> calls among the socket calls of a TCP probe.\<close>

definition connects :: "sock_call list \<Rightarrow> nat" where
  "connects cs = length (filter (\<lambda>c. case c of Connect p h \<Rightarrow> True | _ \<Rightarrow> False) cs)"

text \<open>
  The text a UDP probe is expected to resolve with, read off the environment: the first
  socket error before the send callback, else the error of the send callback, else the
  first socket error while the timer runs, else the informational text.
\<close>

definition udp_outcome :: "port_cfg \<Rightarrow> udp_env \<Rightarrow> string" where
  "udp_outcome cfg env =
     (case errors_before env of
        e # _ \<Rightarrow> udp_socket_error cfg e
      | [] \<Rightarrow>
          (case send_result env of
             Some e \<Rightarrow> udp_send_error cfg e
           | None \<Rightarrow>
               (case errors_waiting env of
                  e # _ \<Rightarrow> udp_socket_error cfg e
                | [] \<Rightarrow> udp_no_response cfg)))"

definition is_problem :: "event \<Rightarrow> bool" where
  "is_problem e = (case e of ProblemAlert c r \<Rightarrow> True | _ \<Rightarrow> False)"

definition is_recovery :: "event \<Rightarrow> bool" where
  "is_recovery e = (case e of RecoveryAlert c r \<Rightarrow> True | _ \<Rightarrow> False)"

definition is_alert :: "event \<Rightarrow> bool" where
  "is_alert e = (is_problem e \<or> is_recovery e)"

text \<open>The events a step appended to the log.\<close>

definition new_events :: "bot \<Rightarrow> bot \<Rightarrow> event list" where
  "new_events st st' = drop (length (events st)) (events st')"

subsection \<open>Concrete configurations and environments\<close>

definition site_a :: website where
  "site_a = \<lparr>w_name = Some ''A'', w_url = ''https://a.example'', w_verifyTls = JUndefined,
     w_timeoutMs = JNum 0, w_id = None\<rparr>"

definition site_http :: website where
  "site_http = \<lparr>w_name = Some ''H'', w_url = ''http://a.example'', w_verifyTls = JUndefined,
     w_timeoutMs = JUndefined, w_id = None\<rparr>"

definition site_constructor :: website where
  "site_constructor = \<lparr>w_name = Some ''A'', w_url = ''https://a.example'', w_verifyTls = JUndefined,
     w_timeoutMs = JUndefined, w_id = Some ''constructor''\<rparr>"

definition port_b :: port_cfg where
  "port_b = \<lparr>p_name = Some ''B'', p_host = ''x'', p_port = 22, p_protocol = None,
     p_timeoutMs = JUndefined\<rparr>"

definition port_udp :: port_cfg where
  "port_udp = \<lparr>p_name = Some ''U'', p_host = ''x'', p_port = 53, p_protocol = Some ''Udp'',
     p_timeoutMs = JUndefined\<rparr>"

definition port_icmp :: port_cfg where
  "port_icmp = \<lparr>p_name = Some ''I'', p_host = ''x'', p_port = 7, p_protocol = Some ''ICMP'',
     p_timeoutMs = JUndefined\<rparr>"

definition tcp_retry_net :: "nat \<Rightarrow> tcp_event" where
  "tcp_retry_net n = (if n = 1 then OnTimeout else OnConnect)"

definition udp_silent :: udp_env where
  "udp_silent = \<lparr>errors_before = [], send_result = None, errors_waiting = []\<rparr>"

definition net_up :: port_env where
  "net_up = \<lparr>tcp_net = (\<lambda>n. OnConnect), udp_net = udp_silent\<rparr>"

definition discord_up :: discord_env where
  "discord_up = \<lparr>dm_fetch = True, dm_send = Some 1, dm_edit = True\<rparr>"

definition discord_edit_fails :: discord_env where
  "discord_edit_fails = \<lparr>dm_fetch = True, dm_send = Some 2, dm_edit = False\<rparr>"

definition bot_a_down :: bot where
  "bot_a_down = \<lparr>statusMessage = Some 1, ownerUser = True,
     lastWebsiteStates = [''0:https://a.example'' \<mapsto> Down], events = []\<rparr>"

definition no_config :: config where
  "no_config = \<lparr>WEBSITES = [], PORTS = []\<rparr>"

definition quiet_env :: cycle_env where
  "quiet_env = \<lparr>web_env = (\<lambda>i. (Response 200, discord_up)), ports_env = (\<lambda>i. net_up),
     footer = [''footer''], push_env = \<lparr>dm_fetch = True, dm_send = Some 2, dm_edit = True\<rparr>\<rparr>"

definition err_notfound :: js_error where
  "err_notfound = \<lparr>err_code = Some ''ENOTFOUND'', err_name = Some ''Error'',
     err_message = ''getaddrinfo ENOTFOUND x''\<rparr>"

definition udp_send_fails :: udp_env where
  "udp_send_fails = \<lparr>errors_before = [], send_result = Some err_notfound, errors_waiting = []\<rparr>"

definition udp_config :: config where
  "udp_config = \<lparr>WEBSITES = [], PORTS = [port_udp]\<rparr>"

definition port_zero :: port_cfg where
  "port_zero = \<lparr>p_name = Some ''Z'', p_host = ''x'', p_port = 0, p_protocol = Some ''udp'',
     p_timeoutMs = JUndefined\<rparr>"

definition port_zero_config :: config where
  "port_zero_config = \<lparr>WEBSITES = [], PORTS = [port_zero]\<rparr>"

text \<open>
  An interval of one second, and cycles that take five seconds each: one website whose
  request is aborted after the default 5000 ms.
\<close>

definition slow_clock :: clock where
  "slow_clock = \<lparr>ready_at = 0, interval_ms = 1000, took = (\<lambda>k. 5000)\<rparr>"

section \<open>Basic facts\<close>

lemma falsy_values: "(\<not> truthy t) = (t \<in> {JUndefined, JNull, JBool False, JNum 0, JStr []})"
  by (cases t) auto

lemma startsWith_map: "startsWith s p \<Longrightarrow> startsWith (map f s) (map f p)"
  by (simp add: startsWith_def take_map)

lemma lower_http: "map lower_char ''http://'' = ''http://''"
  by (simp add: lower_char_def)

lemma startsWith_lower_http:
  "startsWith url ''http://'' \<Longrightarrow> startsWith (toLowerCase url) ''http://''"
  using startsWith_map [of url "''http://''" lower_char]
  by (simp only: toLowerCase_def lower_http)

lemma lower_nil: "toLowerCase [] = []"
  by (simp add: toLowerCase_def)

lemma lower_tcp: "toLowerCase ''tcp'' = ''tcp''"
  by (simp add: toLowerCase_def lower_char_def)

lemma lower_site_a: "toLowerCase ''https://a.example'' = ''https://a.example''"
  by (simp add: toLowerCase_def lower_char_def)

lemma new_events_append: "events st' = events st @ new \<Longrightarrow> new_events st st' = new"
  by (simp add: new_events_def)

section \<open>The website check\<close>

lemma checkWebsite_rejected:
  "checkWebsite cfg (Rejected err) =
     (if is_tls_code (err_code err) then
        \<lparr>res_text = sym_lock @ sym_cross @ site_label cfg
            @ ''TLS/Zertifikatfehler (Website nicht sicher?) '' @ sym_dash @ '' ''
            @ (case err_code err of Some c \<Rightarrow> c | None \<Rightarrow> ''undefined''),
         res_state = TlsError\<rparr>
      else if err_name err = Some ''AbortError'' then
        \<lparr>res_text = sym_clock @ site_label cfg @ ''Timeout nach ''
            @ to_string (website_timeoutMs cfg) @ ''ms'',
         res_state = Down\<rparr>
      else
        \<lparr>res_text = sym_cross @ site_label cfg @ ''Fehler: '' @ str_or (err_name err) ''Error''
            @ '': '' @ err_message err,
         res_state = Down\<rparr>)"
  by (simp add: checkWebsite_def)

lemma listed_codes_are_tls_errors:
  "code = ''UNABLE_TO_VERIFY_LEAF_SIGNATURE'' \<or> code = ''DEPTH_ZERO_SELF_SIGNED_CERT''
     \<or> code = ''CERT_'' @ rest \<Longrightarrow>
   res_state (checkWebsite cfg (Rejected (err\<lparr>err_code := Some code\<rparr>))) = TlsError"
  by (auto simp: checkWebsite_rejected is_tls_code_def startsWith_def)

lemma abort_is_down:
  "\<not> is_tls_code (err_code err) \<Longrightarrow> err_name err = Some ''AbortError'' \<Longrightarrow>
   checkWebsite cfg (Rejected err) =
     \<lparr>res_text = sym_clock @ site_label cfg @ ''Timeout nach ''
        @ to_string (website_timeoutMs cfg) @ ''ms'',
      res_state = Down\<rparr>"
  by (simp add: checkWebsite_rejected)

lemma rejected_never_ok: "res_state (checkWebsite cfg (Rejected err)) \<noteq> Ok"
  by (simp add: checkWebsite_rejected)

text \<open>
  Claim C3. Every rejected request is classified in the order certificate failure, timeout,
  other failure, and every certificate validation failure is to yield \<open>TlsError\<close>. The
  first test of the \<^verbatim>\<open>catch\<close> block recognises the codes that begin with \<^verbatim>\<open>CERT_\<close> and two
  further codes. Node reports a self-signed certificate in the chain with the code
  \<^verbatim>\<open>SELF_SIGNED_CERT_IN_CHAIN\<close>, which passes none of the three tests: the check falls
  through to the last branch and reports the site as \<open>Down\<close> with a generic error text.
\<close>

theorem self_signed_chain_is_down:
  "res_state (checkWebsite cfg (Rejected \<lparr>err_code = Some ''SELF_SIGNED_CERT_IN_CHAIN'',
      err_name = Some ''FetchError'', err_message = msg\<rparr>)) = Down
 \<and> res_text (checkWebsite cfg (Rejected \<lparr>err_code = Some ''SELF_SIGNED_CERT_IN_CHAIN'',
      err_name = Some ''FetchError'', err_message = msg\<rparr>))
     = sym_cross @ site_label cfg @ ''Fehler: FetchError: '' @ msg"
  by (simp add: checkWebsite_def is_tls_code_def startsWith_def str_or_def)

text \<open>
  Claim C4. When a response arrives for a URL that begins with \<^verbatim>\<open>http://\<close>, the state is
  \<open>Down\<close> for every status code; the text is the warning text for a status in [200, 400)
  and the failure text otherwise, and the two texts differ.
\<close>

theorem plain_http_is_down:
  assumes "startsWith (w_url cfg) ''http://''"
  shows "res_state (checkWebsite cfg (Response status)) = Down
       \<and> res_text (checkWebsite cfg (Response status)) =
           (if 200 \<le> status \<and> status < 400
            then sym_warn @ site_label cfg @ ''HTTP '' @ show_nat status
                   @ '' (ohne TLS, evtl. unsicher)''
            else sym_cross @ site_label cfg @ ''HTTP '' @ show_nat status @ '' (ohne TLS)'')
       \<and> (200 \<le> s1 \<and> s1 < 400 \<and> \<not> (200 \<le> s2 \<and> s2 < 400) \<longrightarrow>
            res_text (checkWebsite cfg (Response s1)) \<noteq> res_text (checkWebsite cfg (Response s2)))"
  using startsWith_lower_http [OF assms]
  by (simp add: checkWebsite_def sym_warn_def sym_cross_def)

theorem plain_http_is_down_witness:
  "startsWith (w_url site_http) ''http://''
 \<and> res_state (checkWebsite site_http (Response 200)) = Down
 \<and> res_state (checkWebsite site_http (Response 500)) = Down
 \<and> res_text (checkWebsite site_http (Response 200)) \<noteq> res_text (checkWebsite site_http (Response 500))"
proof -
  have h: "startsWith (w_url site_http) ''http://''"
    by (simp add: site_http_def startsWith_def)
  show ?thesis
    using h plain_http_is_down [OF h, of 200 200 500] plain_http_is_down [OF h, of 500 200 500]
    by simp
qed

lemma uppercase_scheme_is_down:
  "startsWith (toLowerCase (w_url cfg)) ''http://'' \<Longrightarrow>
   res_state (checkWebsite cfg (Response status)) = Down"
  by (simp add: checkWebsite_def)

section \<open>The TCP check\<close>

lemma attempt_second:
  "setTimeout_accepts (tcp_timeoutMs cfg) \<Longrightarrow> connect_accepts (p_port cfg) \<Longrightarrow>
   attempt cfg env 2 =
     (case env 2 of
        OnError err \<Rightarrow> (tcp_open cfg @ [Destroy], Returned (tcp_unreachable cfg err))
      | OnConnect \<Rightarrow> (tcp_open cfg @ [Destroy], Returned (tcp_reachable cfg))
      | OnTimeout \<Rightarrow> (tcp_open cfg @ [Destroy], Returned (tcp_timed_out cfg)))"
  by (simp split: tcp_event.splits)

lemma attempt_first:
  "setTimeout_accepts (tcp_timeoutMs cfg) \<Longrightarrow> connect_accepts (p_port cfg) \<Longrightarrow>
   attempt cfg env 1 =
     (case env 1 of
        OnError err \<Rightarrow> (tcp_open cfg @ [Destroy], Returned (tcp_unreachable cfg err))
      | OnConnect \<Rightarrow> (tcp_open cfg @ [Destroy], Returned (tcp_reachable cfg))
      | OnTimeout \<Rightarrow> (tcp_open cfg @ [Destroy] @ fst (attempt cfg env 2), snd (attempt cfg env 2)))"
  by (simp split: tcp_event.splits)

text \<open>A refused timeout or port rejects the promise before any event.\<close>

lemma tcp_refused:
  "\<not> setTimeout_accepts (tcp_timeoutMs cfg) \<Longrightarrow>
   checkTcpPort cfg env = ([SetTimeout (tcp_timeoutMs cfg)], Threw)"
  "setTimeout_accepts (tcp_timeoutMs cfg) \<Longrightarrow> \<not> connect_accepts (p_port cfg) \<Longrightarrow>
   checkTcpPort cfg env = (tcp_open cfg, Threw)"
  by (simp_all add: checkTcpPort_def)

lemma tcp_settled: "snd (checkTcpPort cfg env) \<noteq> Pending"
proof (cases "setTimeout_accepts (tcp_timeoutMs cfg) \<and> connect_accepts (p_port cfg)")
  case True
  then show ?thesis
    by (simp add: checkTcpPort_def attempt_first attempt_second split: tcp_event.splits)
next
  case False
  then show ?thesis
    using tcp_refused [of cfg env] by (cases "setTimeout_accepts (tcp_timeoutMs cfg)") auto
qed

lemma tcp_set_timeouts: "SetTimeout t \<in> set (fst (checkTcpPort p env)) \<longleftrightarrow> t = tcp_timeoutMs p"
proof (cases "setTimeout_accepts (tcp_timeoutMs p) \<and> connect_accepts (p_port p)")
  case True
  then show ?thesis
    by (auto simp: checkTcpPort_def attempt_first attempt_second tcp_open_def
        split: tcp_event.splits)
next
  case False
  then show ?thesis
    using tcp_refused [of p env]
    by (cases "setTimeout_accepts (tcp_timeoutMs p)") (auto simp: tcp_open_def)
qed

lemma tcp_texts_differ:
  "tcp_reachable cfg \<noteq> tcp_unreachable cfg err \<and> tcp_reachable cfg \<noteq> tcp_timed_out cfg
     \<and> tcp_unreachable cfg err \<noteq> tcp_timed_out cfg"
  by (simp add: tcp_reachable_def tcp_unreachable_def tcp_timed_out_def sym_ok_def sym_cross_def
      sym_clock_def)

text \<open>
  Claim C5. On a probe whose timeout and port Node accepts (otherwise no attempt gets as
  far as an event): a connect or an error on the first attempt resolves at once, with one
  connection made and no retry. A timeout on the first attempt opens exactly one further
  socket with the same timeout and the same target; on that second attempt a connect
  resolves with the text \<^verbatim>\<open>erreichbar\<close>, an error with the text \<^verbatim>\<open>nicht erreichbar\<close> and the
  error's code or message, and a timeout with the text that names the timeout and ends
  in \<^verbatim>\<open>(nach Retry)\<close>. The three texts are pairwise different, and no run connects more
  than twice.
\<close>

theorem tcp_retry_policy:
  assumes "setTimeout_accepts (tcp_timeoutMs cfg)" and "connect_accepts (p_port cfg)"
  shows
  "(env 1 = OnConnect \<longrightarrow>
      checkTcpPort cfg env
        = (tcp_open cfg @ [Destroy],
           Returned (sym_ok @ port_label ''TCP'' cfg @ ''erreichbar'')))
 \<and> (env 1 = OnError err \<longrightarrow>
      checkTcpPort cfg env
        = (tcp_open cfg @ [Destroy],
           Returned (sym_cross @ port_label ''TCP'' cfg @ ''nicht erreichbar (''
                       @ str_or (err_code err) (err_message err) @ '')'')))
 \<and> (env 1 = OnTimeout \<and> env 2 = OnConnect \<longrightarrow>
      checkTcpPort cfg env
        = (tcp_open cfg @ [Destroy] @ tcp_open cfg @ [Destroy],
           Returned (sym_ok @ port_label ''TCP'' cfg @ ''erreichbar'')))
 \<and> (env 1 = OnTimeout \<and> env 2 = OnError err \<longrightarrow>
      checkTcpPort cfg env
        = (tcp_open cfg @ [Destroy] @ tcp_open cfg @ [Destroy],
           Returned (sym_cross @ port_label ''TCP'' cfg @ ''nicht erreichbar (''
                       @ str_or (err_code err) (err_message err) @ '')'')))
 \<and> (env 1 = OnTimeout \<and> env 2 = OnTimeout \<longrightarrow>
      checkTcpPort cfg env
        = (tcp_open cfg @ [Destroy] @ tcp_open cfg @ [Destroy],
           Returned (sym_clock @ port_label ''TCP'' cfg @ ''Timeout nach ''
                       @ to_string (tcp_timeoutMs cfg) @ ''ms (nach Retry)'')))
 \<and> tcp_open cfg = [SetTimeout (tcp_timeoutMs cfg), Connect (p_port cfg) (p_host cfg)]
 \<and> connects (fst (checkTcpPort cfg env)) = (if env 1 = OnTimeout then 2 else 1)
 \<and> sym_ok @ port_label ''TCP'' cfg @ ''erreichbar''
      \<noteq> sym_cross @ port_label ''TCP'' cfg @ ''nicht erreichbar (''
            @ str_or (err_code err) (err_message err) @ '')''
 \<and> sym_ok @ port_label ''TCP'' cfg @ ''erreichbar''
      \<noteq> sym_clock @ port_label ''TCP'' cfg @ ''Timeout nach ''
            @ to_string (tcp_timeoutMs cfg) @ ''ms (nach Retry)''
 \<and> sym_cross @ port_label ''TCP'' cfg @ ''nicht erreichbar (''
        @ str_or (err_code err) (err_message err) @ '')''
      \<noteq> sym_clock @ port_label ''TCP'' cfg @ ''Timeout nach ''
            @ to_string (tcp_timeoutMs cfg) @ ''ms (nach Retry)''"
proof -
  have t: "sym_ok @ port_label ''TCP'' cfg @ ''erreichbar'' = tcp_reachable cfg"
    "sym_cross @ port_label ''TCP'' cfg @ ''nicht erreichbar (''
        @ str_or (err_code err) (err_message err) @ '')'' = tcp_unreachable cfg err"
    "sym_clock @ port_label ''TCP'' cfg @ ''Timeout nach ''
        @ to_string (tcp_timeoutMs cfg) @ ''ms (nach Retry)'' = tcp_timed_out cfg"
    by (simp_all add: tcp_reachable_def tcp_unreachable_def tcp_timed_out_def err_detail_def)
  have c: "connects (tcp_open cfg @ [Destroy]) = 1"
    "connects (tcp_open cfg @ [Destroy] @ tcp_open cfg @ [Destroy]) = 2"
    by (simp_all add: connects_def tcp_open_def)
  show ?thesis
    unfolding t
    using assms tcp_texts_differ [of cfg err] c
    by (cases "env 1"; cases "env 2")
       (simp_all add: checkTcpPort_def attempt_first attempt_second tcp_open_def)
qed

theorem tcp_retry_policy_witness:
  "setTimeout_accepts (tcp_timeoutMs port_b) \<and> connect_accepts (p_port port_b)
 \<and> tcp_retry_net 1 = OnTimeout \<and> tcp_retry_net 2 = OnConnect
 \<and> checkTcpPort port_b tcp_retry_net
      = (tcp_open port_b @ [Destroy] @ tcp_open port_b @ [Destroy],
         Returned (sym_ok @ port_label ''TCP'' port_b @ ''erreichbar''))
 \<and> connects (fst (checkTcpPort port_b tcp_retry_net)) = 2
 \<and> checkTcpPort port_b (\<lambda>n. OnTimeout)
      = (tcp_open port_b @ [Destroy] @ tcp_open port_b @ [Destroy],
         Returned (sym_clock @ port_label ''TCP'' port_b @ ''Timeout nach ''
                     @ to_string (tcp_timeoutMs port_b) @ ''ms (nach Retry)''))
 \<and> checkTcpPort port_b (\<lambda>n. OnConnect)
      = (tcp_open port_b @ [Destroy], Returned (sym_ok @ port_label ''TCP'' port_b @ ''erreichbar''))"
proof -
  have h: "setTimeout_accepts (tcp_timeoutMs port_b)" "connect_accepts (p_port port_b)"
    by (simp_all add: setTimeout_accepts_def tcp_timeoutMs_def js_or_def connect_accepts_def
        port_b_def)
  have n: "tcp_retry_net 1 = OnTimeout" "tcp_retry_net 2 = OnConnect"
    by (simp_all add: tcp_retry_net_def)
  note t = tcp_retry_policy [OF h, where env = tcp_retry_net and err = err_notfound]
  note u = tcp_retry_policy [OF h, where env = "\<lambda>n. OnTimeout" and err = err_notfound]
  note v = tcp_retry_policy [OF h, where env = "\<lambda>n. OnConnect" and err = err_notfound]
  have a: "checkTcpPort port_b tcp_retry_net
      = (tcp_open port_b @ [Destroy] @ tcp_open port_b @ [Destroy],
         Returned (sym_ok @ port_label ''TCP'' port_b @ ''erreichbar''))"
    using n t by blast
  have "connects (fst (checkTcpPort port_b tcp_retry_net))
      = (if tcp_retry_net 1 = OnTimeout then 2 else 1)"
    using t by blast
  then have b: "connects (fst (checkTcpPort port_b tcp_retry_net)) = 2"
    using n by simp
  have c: "checkTcpPort port_b (\<lambda>n. OnTimeout)
      = (tcp_open port_b @ [Destroy] @ tcp_open port_b @ [Destroy],
         Returned (sym_clock @ port_label ''TCP'' port_b @ ''Timeout nach ''
                     @ to_string (tcp_timeoutMs port_b) @ ''ms (nach Retry)''))"
    using u by blast
  have d: "checkTcpPort port_b (\<lambda>n. OnConnect)
      = (tcp_open port_b @ [Destroy], Returned (sym_ok @ port_label ''TCP'' port_b @ ''erreichbar''))"
    using v by blast
  show ?thesis using h n a b c d by blast
qed

section \<open>The UDP check\<close>

lemma udp_errors_finished: "finished s \<Longrightarrow> udp_run cfg (map SocketError es) s = s"
  by (induction es) (simp_all add: udp_done_def)

lemma udp_run_append: "udp_run cfg (xs @ ys) s = udp_run cfg ys (udp_run cfg xs s)"
  by (induction xs arbitrary: s) simp_all

lemma udp_handle_rejected: "rejected (udp_handle cfg e s) = rejected s"
  by (cases "(cfg, e, s)" rule: udp_handle.cases) (simp_all add: udp_done_def split: option.splits)

lemma udp_run_rejected: "rejected (udp_run cfg es s) = rejected s"
  by (induction es arbitrary: s) (simp_all add: udp_handle_rejected)

lemma udp_run_resolved:
  "resolved (udp_run cfg (udp_events env) udp_init) = [udp_outcome cfg env]
     \<and> closes (udp_run cfg (udp_events env) udp_init) = 1"
  by (cases "errors_before env"; cases "send_result env"; cases "errors_waiting env")
     (simp_all add: udp_events_def udp_run_append udp_outcome_def udp_init_def
        udp_done_def udp_errors_finished)

lemma udp_init_not_rejected: "\<not> rejected udp_init"
  by (simp add: udp_init_def)

text \<open>On a port that \<^verbatim>\<open>socket.send\<close> accepts the probe resolves once and closes once.\<close>

lemma checkUdpPort_accepted:
  "send_accepts (p_port cfg) \<Longrightarrow>
   resolved (checkUdpPort cfg env) = [udp_outcome cfg env] \<and> closes (checkUdpPort cfg env) = 1
     \<and> \<not> rejected (checkUdpPort cfg env)
     \<and> udp_awaited (checkUdpPort cfg env) = Returned (udp_outcome cfg env)"
  by (simp add: checkUdpPort_def udp_run_resolved udp_run_rejected udp_awaited_def
      udp_init_not_rejected)

lemma checkUdpPort_refused:
  "\<not> send_accepts (p_port cfg) \<Longrightarrow>
   resolved (checkUdpPort cfg env) = [] \<and> closes (checkUdpPort cfg env) = 0
     \<and> rejected (checkUdpPort cfg env) \<and> udp_awaited (checkUdpPort cfg env) = Threw"
  by (simp add: checkUdpPort_def udp_awaited_def udp_init_def)

text \<open>
  Without any error the resolved text is the informational one; a failure text needs an
  error of the send callback or a socket error.
\<close>

lemma udp_silent_is_informational:
  "send_accepts (p_port cfg) \<Longrightarrow> errors_before env = [] \<Longrightarrow> send_result env = None \<Longrightarrow>
   errors_waiting env = [] \<Longrightarrow>
   resolved (checkUdpPort cfg env)
     = [sym_info @ port_label ''UDP'' cfg @ ''Paket gesendet, keine Antwort (UDP schwer zuverl''
          @ sym_ae @ ''ssig zu pr'' @ sym_ue @ ''fen)'']"
  by (simp add: checkUdpPort_accepted udp_outcome_def udp_no_response_def)

lemma udp_send_error_is_failure:
  "send_accepts (p_port cfg) \<Longrightarrow> errors_before env = [] \<Longrightarrow> send_result env = Some e \<Longrightarrow>
   resolved (checkUdpPort cfg env)
     = [sym_cross @ port_label ''UDP'' cfg @ ''Fehler beim Senden: ''
          @ str_or (err_code e) (err_message e)]"
  by (simp add: checkUdpPort_accepted udp_outcome_def udp_send_error_def err_detail_def)

text \<open>The guard of \<^verbatim>\<open>done\<close> holds for any sequence of events, not only the expected ones.\<close>

lemma udp_guard:
  "length (resolved s) \<le> 1 \<Longrightarrow> (finished s \<longleftrightarrow> resolved s \<noteq> []) \<Longrightarrow>
   closes s = length (resolved s) \<Longrightarrow>
   length (resolved (udp_run cfg es s)) \<le> 1
     \<and> closes (udp_run cfg es s) = length (resolved (udp_run cfg es s))"
proof (induction es arbitrary: s)
  case Nil
  then show ?case by simp
next
  case (Cons e es)
  have "length (resolved (udp_handle cfg e s)) \<le> 1
      \<and> (finished (udp_handle cfg e s) \<longleftrightarrow> resolved (udp_handle cfg e s) \<noteq> [])
      \<and> closes (udp_handle cfg e s) = length (resolved (udp_handle cfg e s))"
    using Cons.prems
    by (cases "(cfg, e, s)" rule: udp_handle.cases) (auto simp: udp_done_def split: option.splits)
  then show ?case using Cons.IH [of "udp_handle cfg e s"] by simp
qed

lemma udp_any_events_at_most_once: "length (resolved (udp_run cfg es udp_init)) \<le> 1"
  using udp_guard [of udp_init cfg es] by (simp add: udp_init_def)

lemma udp_texts_differ:
  "udp_no_response cfg \<noteq> udp_socket_error cfg e \<and> udp_no_response cfg \<noteq> udp_send_error cfg e"
  by (simp add: udp_no_response_def udp_socket_error_def udp_send_error_def sym_info_def
      sym_cross_def)

section \<open>The port loop\<close>

lemma port_check_cases:
  "port_check cfg env =
     (let proto = toLowerCase (str_or (p_protocol cfg) ''tcp'') in
      if proto = ''tcp'' then (Some TcpProbe, snd (checkTcpPort cfg (tcp_net env)))
      else if proto = ''udp'' then
        (Some UdpProbe,
         if send_accepts (p_port cfg) then Returned (udp_outcome cfg (udp_net env)) else Threw)
      else (None, Returned (unknown_protocol cfg proto)))"
  using checkUdpPort_accepted [of cfg "udp_net env"] checkUdpPort_refused [of cfg "udp_net env"]
  by (simp add: port_check_def Let_def)

lemma port_check_settled: "snd (port_check cfg env) \<noteq> Pending"
  by (simp add: port_check_cases Let_def tcp_settled)

lemma port_loop_settled: "port_loop env i cfgs lines \<noteq> Pending"
proof (induction cfgs arbitrary: i lines)
  case Nil
  then show ?case by simp
next
  case (Cons cfg cfgs)
  then show ?case
    using port_check_settled [of cfg "env i"]
    by (cases "snd (port_check cfg (env i))") simp_all
qed

text \<open>Every cycle completes: no awaited probe stays pending.\<close>

lemma cycle_returns: "\<exists>st'. doMonitoringCycle conf env st = Some st'"
proof -
  have "port_section conf env (fst (website_section conf env st)) \<noteq> Pending"
    using port_loop_settled
    by (auto simp: port_section_def split: awaited.splits)
  then show ?thesis
    by (cases "port_section conf env (fst (website_section conf env st))")
       (simp_all add: doMonitoringCycle_def Let_def)
qed

lemma pushReport_no_alerts:
  "filter is_alert (events (case pushReport content env st of Normal s \<Rightarrow> s | Thrown s \<Rightarrow> s))
     = filter is_alert (events st)"
  by (auto simp: pushReport_def send_status_def log_event_def is_alert_def is_problem_def
      is_recovery_def Let_def split: option.splits)

text \<open>Port results raise no alert: the alerts of a cycle are those of its website section.\<close>

lemma cycle_alerts:
  "doMonitoringCycle conf env st = Some st' \<Longrightarrow>
   filter is_alert (events st') = filter is_alert (events (snd (website_section conf env st)))"
  by (auto simp: doMonitoringCycle_def Let_def pushReport_no_alerts split: awaited.splits)

lemma lower_udp: "toLowerCase ''udp'' = ''udp''"
  by (simp add: toLowerCase_def lower_char_def)

text \<open>
  Claim C7. Every invocation of the UDP probe is to resolve exactly once, and a
  synchronous send error is to resolve as a failure. \<^verbatim>\<open>socket.send\<close> is called inside the
  executor of the promise with nothing around it, and it throws for a port that is 0 or
  above 65535. For the port entry with \<^verbatim>\<open>port: 0\<close>, whatever the network does, the probe
  never calls \<^verbatim>\<open>resolve\<close> and never closes its socket; the promise is rejected, the error
  passes the boundary of the probe, and the cycle ends in its \<^verbatim>\<open>catch\<close> without a report.
\<close>

theorem udp_refused_port_never_resolves:
  "resolved (checkUdpPort port_zero env) = []
 \<and> closes (checkUdpPort port_zero env) = 0
 \<and> rejected (checkUdpPort port_zero env)
 \<and> port_check port_zero penv = (Some UdpProbe, Threw)
 \<and> doMonitoringCycle port_zero_config quiet_env bot_init = Some bot_init"
proof -
  have r: "\<not> send_accepts (p_port port_zero)"
    by (simp add: send_accepts_def port_zero_def)
  have p: "toLowerCase (str_or (p_protocol port_zero) ''tcp'') = ''udp''"
    by (simp add: port_zero_def str_or_def lower_udp)
  have c: "port_check port_zero penv = (Some UdpProbe, Threw)" for penv
    using r p by (simp add: port_check_cases)
  have "port_section port_zero_config quiet_env [] = Threw"
    using c by (simp add: port_section_def port_zero_config_def)
  then have "doMonitoringCycle port_zero_config quiet_env bot_init = Some bot_init"
    by (simp add: doMonitoringCycle_def website_section_def port_zero_config_def)
  then show ?thesis
    using checkUdpPort_refused [OF r, of env] c by simp
qed

text \<open>
  Claim C9. When \<^verbatim>\<open>timeoutMs\<close> is absent, 0 or otherwise falsy, the website check arms its
  abort timer with 5000 (and names 5000 in its timeout text), every socket of the TCP
  check gets the timeout 3000, and the UDP check arms its timer with 3000.
\<close>

theorem falsy_timeout_defaults:
  assumes "w_timeoutMs w = JUndefined \<or> w_timeoutMs w = JNum 0 \<or> \<not> truthy (w_timeoutMs w)"
    and "p_timeoutMs p = JUndefined \<or> p_timeoutMs p = JNum 0 \<or> \<not> truthy (p_timeoutMs p)"
  shows "req_abort_after (fetch_request w) = JNum 5000
       \<and> res_text (checkWebsite w
            (Rejected \<lparr>err_code = None, err_name = Some ''AbortError'', err_message = msg\<rparr>))
           = sym_clock @ site_label w @ ''Timeout nach 5000ms''
       \<and> (SetTimeout t \<in> set (fst (checkTcpPort p env)) \<longleftrightarrow> t = JNum 3000)
       \<and> timer (udp_handle p (SendCallback None) s) = Some (JNum 3000)"
proof -
  have w: "website_timeoutMs w = JNum 5000"
    using assms(1) by (auto simp: website_timeoutMs_def js_or_def)
  have p: "tcp_timeoutMs p = JNum 3000" "udp_timeoutMs p = JNum 3000"
    using assms(2) by (auto simp: tcp_timeoutMs_def udp_timeoutMs_def js_or_def)
  have "show_int 5000 = ''5000''"
    by (simp add: show_int_def digit_char_def)
  then show ?thesis
    using w p by (simp add: fetch_request_def tcp_set_timeouts checkWebsite_def is_tls_code_def)
qed

theorem falsy_timeout_defaults_witness:
  "w_timeoutMs site_a = JNum 0 \<and> p_timeoutMs port_b = JUndefined
 \<and> req_abort_after (fetch_request site_a) = JNum 5000
 \<and> SetTimeout (JNum 3000) \<in> set (fst (checkTcpPort port_b tcp_retry_net))
 \<and> timer (udp_handle port_b (SendCallback None) udp_init) = Some (JNum 3000)"
proof -
  have w: "w_timeoutMs site_a = JUndefined \<or> w_timeoutMs site_a = JNum 0
      \<or> \<not> truthy (w_timeoutMs site_a)"
    by (simp add: site_a_def)
  have p: "p_timeoutMs port_b = JUndefined \<or> p_timeoutMs port_b = JNum 0
      \<or> \<not> truthy (p_timeoutMs port_b)"
    by (simp add: port_b_def)
  have "w_timeoutMs site_a = JNum 0 \<and> p_timeoutMs port_b = JUndefined"
    by (simp add: site_a_def port_b_def)
  then show ?thesis
    using falsy_timeout_defaults [OF w p, of "[]" "JNum 3000" tcp_retry_net udp_init] by simp
qed

text \<open>
  Claim C10. A port entry without \<^verbatim>\<open>protocol\<close> gets the TCP probe. A protocol whose
  lower-case form is \<^verbatim>\<open>tcp\<close> or \<^verbatim>\<open>udp\<close> gets that probe, whatever its case. Any other protocol
  runs no probe and yields the line for an unknown protocol, which names the lower-case
  form, and that line is produced only for a protocol whose lower-case form is neither
  \<^verbatim>\<open>tcp\<close> nor \<^verbatim>\<open>udp\<close>.
\<close>

theorem protocol_selection:
  "(p_protocol cfg = None \<longrightarrow>
      port_check cfg env = (Some TcpProbe, snd (checkTcpPort cfg (tcp_net env))))
 \<and> (p_protocol cfg = Some p \<and> toLowerCase p = ''tcp'' \<longrightarrow>
      port_check cfg env = (Some TcpProbe, snd (checkTcpPort cfg (tcp_net env))))
 \<and> (p_protocol cfg = Some p \<and> toLowerCase p = ''udp'' \<longrightarrow>
      port_check cfg env = (Some UdpProbe, udp_awaited (checkUdpPort cfg (udp_net env))))
 \<and> (p_protocol cfg = Some p \<and> p \<noteq> [] \<and> toLowerCase p \<noteq> ''tcp'' \<and> toLowerCase p \<noteq> ''udp'' \<longrightarrow>
      port_check cfg env
        = (None, Returned (sym_question @ '' **'' @ str_or (p_name cfg) ''Unbenannt'' @ ''** ''
                    @ sym_dash @ '' unbekanntes Protokoll: '' @ toLowerCase p)))
 \<and> (fst (port_check cfg env) = None \<longrightarrow>
      (\<exists>q. p_protocol cfg = Some q \<and> toLowerCase q \<noteq> ''tcp'' \<and> toLowerCase q \<noteq> ''udp''
          \<and> port_check cfg env
               = (None, Returned (sym_question @ '' **'' @ str_or (p_name cfg) ''Unbenannt''
                    @ ''** '' @ sym_dash @ '' unbekanntes Protokoll: '' @ toLowerCase q))))"
  by (cases "p_protocol cfg")
     (auto simp: port_check_def str_or_def lower_tcp lower_nil unknown_protocol_def Let_def
        split: if_splits)

theorem protocol_selection_witness:
  "p_protocol port_b = None
 \<and> port_check port_b net_up = (Some TcpProbe, snd (checkTcpPort port_b (tcp_net net_up)))
 \<and> p_protocol port_udp = Some ''Udp'' \<and> toLowerCase ''Udp'' = ''udp''
 \<and> port_check port_udp net_up = (Some UdpProbe, udp_awaited (checkUdpPort port_udp (udp_net net_up)))
 \<and> p_protocol port_icmp = Some ''ICMP'' \<and> toLowerCase ''ICMP'' = ''icmp''
 \<and> port_check port_icmp net_up
      = (None, Returned (sym_question @ '' **'' @ str_or (p_name port_icmp) ''Unbenannt'' @ ''** ''
                  @ sym_dash @ '' unbekanntes Protokoll: '' @ ''icmp''))"
proof -
  have l: "toLowerCase ''Udp'' = ''udp''" "toLowerCase ''ICMP'' = ''icmp''"
    by (simp_all add: toLowerCase_def lower_char_def)
  have c: "p_protocol port_b = None" "p_protocol port_udp = Some ''Udp''"
    "p_protocol port_icmp = Some ''ICMP''"
    by (simp_all add: port_b_def port_udp_def port_icmp_def)
  have n: "''ICMP'' \<noteq> []" "''icmp'' \<noteq> ''tcp''" "''icmp'' \<noteq> ''udp''"
    by simp_all
  have t: "port_check port_b net_up = (Some TcpProbe, snd (checkTcpPort port_b (tcp_net net_up)))"
    using c protocol_selection [where cfg = port_b and p = "''Udp''" and env = net_up] by blast
  have u: "port_check port_udp net_up
      = (Some UdpProbe, udp_awaited (checkUdpPort port_udp (udp_net net_up)))"
    using l c protocol_selection [where cfg = port_udp and p = "''Udp''" and env = net_up] by blast
  have i: "port_check port_icmp net_up
      = (None, Returned (sym_question @ '' **'' @ str_or (p_name port_icmp) ''Unbenannt'' @ ''** ''
                  @ sym_dash @ '' unbekanntes Protokoll: '' @ toLowerCase ''ICMP''))"
    using l c n protocol_selection [where cfg = port_icmp and p = "''ICMP''" and env = net_up]
    by (simp only: simp_thms)
  show ?thesis
    using l c t u i by (simp only: simp_thms)
qed

section \<open>Transitions and alerts\<close>

lemma send_alert_events:
  "\<exists>new. events (send_alert txt env st) = events st @ new \<and> filter is_alert new = []"
  by (simp add: send_alert_def log_event_def is_alert_def is_problem_def is_recovery_def)

lemma problem_alert_events:
  "\<exists>new. events (sendWebsiteProblemAlert cfg r env st) = events st @ new
        \<and> filter is_alert new = [ProblemAlert cfg r]"
proof -
  obtain new where "events (send_alert (alert_title (res_state r) @ nl
          @ ''**'' @ str_or (w_name cfg) ''Unbenannt'' @ ''** ('' @ w_url cfg @ '')'' @ nl
          @ res_text r) env (log_event (ProblemAlert cfg r) st))
      = events (log_event (ProblemAlert cfg r) st) @ new" "filter is_alert new = []"
    using send_alert_events by blast
  then show ?thesis
    by (simp add: sendWebsiteProblemAlert_def log_event_def is_alert_def is_problem_def)
qed

lemma recovery_alert_events:
  "\<exists>new. events (sendWebsiteRecoveryAlert cfg r env st) = events st @ new
        \<and> filter is_alert new = [RecoveryAlert cfg r]"
proof -
  obtain new where "events (send_alert (sym_ok @ '' Recovery'' @ nl
          @ ''**'' @ str_or (w_name cfg) ''Unbenannt'' @ ''** ('' @ w_url cfg
          @ '') ist wieder erreichbar / ohne SSL-Fehler.'' @ nl
          @ res_text r) env (log_event (RecoveryAlert cfg r) st))
      = events (log_event (RecoveryAlert cfg r) st) @ new" "filter is_alert new = []"
    using send_alert_events by blast
  then show ?thesis
    by (simp add: sendWebsiteRecoveryAlert_def log_event_def is_alert_def is_recovery_def
        is_problem_def)
qed

lemma website_step_alerts:
  "\<exists>new. events (snd (website_step i cfg env acc)) = events (snd acc) @ new
     \<and> filter is_alert new =
        (if res_state (checkWebsite cfg (fst env)) \<noteq> Ok
            \<and> Known (res_state (checkWebsite cfg (fst env)))
                \<noteq> prevState_of (lastWebsiteStates (snd acc)) (getWebsiteKey cfg i)
         then [ProblemAlert cfg (checkWebsite cfg (fst env))]
         else if res_state (checkWebsite cfg (fst env)) = Ok
            \<and> prevState_of (lastWebsiteStates (snd acc)) (getWebsiteKey cfg i) \<noteq> Known Ok
         then [RecoveryAlert cfg (checkWebsite cfg (fst env))]
         else [])"
  using problem_alert_events [of cfg "checkWebsite cfg (fst env)" "snd env" "snd acc"]
        recovery_alert_events [of cfg "checkWebsite cfg (fst env)" "snd env" "snd acc"]
  by (auto simp: website_step_def Let_def)

lemma step_alerts:
  "filter is_alert (new_events (snd acc) (snd (website_step i cfg env acc))) =
     (if res_state (checkWebsite cfg (fst env)) \<noteq> Ok
            \<and> Known (res_state (checkWebsite cfg (fst env)))
                \<noteq> prevState_of (lastWebsiteStates (snd acc)) (getWebsiteKey cfg i)
         then [ProblemAlert cfg (checkWebsite cfg (fst env))]
         else if res_state (checkWebsite cfg (fst env)) = Ok
            \<and> prevState_of (lastWebsiteStates (snd acc)) (getWebsiteKey cfg i) \<noteq> Known Ok
         then [RecoveryAlert cfg (checkWebsite cfg (fst env))]
         else [])"
proof -
  obtain new where e: "events (snd (website_step i cfg env acc)) = events (snd acc) @ new"
    and f: "filter is_alert new =
        (if res_state (checkWebsite cfg (fst env)) \<noteq> Ok
            \<and> Known (res_state (checkWebsite cfg (fst env)))
                \<noteq> prevState_of (lastWebsiteStates (snd acc)) (getWebsiteKey cfg i)
         then [ProblemAlert cfg (checkWebsite cfg (fst env))]
         else if res_state (checkWebsite cfg (fst env)) = Ok
            \<and> prevState_of (lastWebsiteStates (snd acc)) (getWebsiteKey cfg i) \<noteq> Known Ok
         then [RecoveryAlert cfg (checkWebsite cfg (fst env))]
         else [])"
    using website_step_alerts by blast
  from e have "new_events (snd acc) (snd (website_step i cfg env acc)) = new"
    by (rule new_events_append)
  with f show ?thesis by simp
qed

text \<open>Over the whole loop no more alert functions are invoked than there are websites.\<close>

lemma website_loop_alerts:
  "\<exists>new. events (snd (website_loop env i cfgs acc)) = events (snd acc) @ new
     \<and> length (filter is_alert new) \<le> length cfgs"
proof (induction cfgs arbitrary: i acc)
  case Nil
  then show ?case by simp
next
  case (Cons cfg cfgs)
  obtain n1 where n1: "events (snd (website_step i cfg (env i) acc)) = events (snd acc) @ n1"
    and l1: "length (filter is_alert n1) \<le> 1"
    using website_step_alerts [of i cfg "env i" acc] by (auto split: if_splits)
  obtain n2 where n2: "events (snd (website_loop env (Suc i) cfgs (website_step i cfg (env i) acc)))
      = events (snd (website_step i cfg (env i) acc)) @ n2"
    and l2: "length (filter is_alert n2) \<le> length cfgs"
    using Cons.IH by blast
  show ?case
    using n1 n2 l1 l2 by (intro exI [of _ "n1 @ n2"]) simp
qed

lemma key_site_a: "getWebsiteKey site_a 0 = ''0:https://a.example''"
  by (simp add: getWebsiteKey_def site_a_def str_or_def digit_char_def)

lemma site_a_ok: "res_state (checkWebsite site_a (Response 200)) = Ok"
  by (simp add: checkWebsite_def site_a_def lower_site_a startsWith_def)

lemma site_a_unreachable: "res_state (checkWebsite site_a (Rejected err_notfound)) = Down"
  by (simp add: checkWebsite_rejected err_notfound_def is_tls_code_def startsWith_def)

text \<open>
  Claim C1. In the loop body for a website, with \<open>prevState\<close> as the code reads it for
  the website's key (the stored state when one is stored): the problem alert is invoked
  exactly when the new state is not \<open>Ok\<close> and differs from \<open>prevState\<close>; the recovery alert
  is invoked exactly when the new state is \<open>Ok\<close> and \<open>prevState\<close> is not \<open>Ok\<close>; and at most
  one of the two alert functions is invoked, at most once.
\<close>

theorem transition_notifications:
  "(list_ex is_problem (new_events (snd acc) (snd (website_step i cfg env acc)))
      \<longleftrightarrow> res_state (checkWebsite cfg (fst env)) \<noteq> Ok
          \<and> Known (res_state (checkWebsite cfg (fst env)))
               \<noteq> prevState_of (lastWebsiteStates (snd acc)) (getWebsiteKey cfg i))
 \<and> (list_ex is_recovery (new_events (snd acc) (snd (website_step i cfg env acc)))
      \<longleftrightarrow> res_state (checkWebsite cfg (fst env)) = Ok
          \<and> prevState_of (lastWebsiteStates (snd acc)) (getWebsiteKey cfg i) \<noteq> Known Ok)
 \<and> length (filter is_alert (new_events (snd acc) (snd (website_step i cfg env acc)))) \<le> 1
 \<and> (\<forall>s. lastWebsiteStates (snd acc) (getWebsiteKey cfg i) = Some s \<longrightarrow>
        prevState_of (lastWebsiteStates (snd acc)) (getWebsiteKey cfg i) = Known s)"
proof -
  let ?new = "new_events (snd acc) (snd (website_step i cfg env acc))"
  have p: "list_ex is_problem ?new = list_ex is_problem (filter is_alert ?new)"
    by (auto simp: list_ex_iff is_alert_def)
  have r: "list_ex is_recovery ?new = list_ex is_recovery (filter is_alert ?new)"
    by (auto simp: list_ex_iff is_alert_def)
  show ?thesis
    unfolding p r step_alerts
    by (auto simp: is_problem_def is_recovery_def prevState_of_def)
qed

theorem transition_notifications_witness:
  "lastWebsiteStates bot_a_down (getWebsiteKey site_a 0) = Some Down
 \<and> prevState_of (lastWebsiteStates bot_a_down) (getWebsiteKey site_a 0) = Known Down
 \<and> list_ex is_recovery
      (new_events bot_a_down (snd (website_step 0 site_a (Response 200, discord_up) ([], bot_a_down))))
 \<and> \<not> list_ex is_problem
      (new_events bot_a_down (snd (website_step 0 site_a (Response 200, discord_up) ([], bot_a_down))))
 \<and> \<not> list_ex is_problem
      (new_events bot_a_down
         (snd (website_step 0 site_a (Rejected err_notfound, discord_up) ([], bot_a_down))))
 \<and> list_ex is_problem
      (new_events bot_init (snd (website_step 0 site_a (Rejected err_notfound, discord_up) ([], bot_init))))"
proof -
  have s: "lastWebsiteStates bot_a_down (getWebsiteKey site_a 0) = Some Down"
    by (simp add: key_site_a bot_a_down_def)
  note t = transition_notifications [where acc = "([], bot_a_down)" and i = 0 and cfg = site_a
      and env = "(Response 200, discord_up)"]
  note u = transition_notifications [where acc = "([], bot_a_down)" and i = 0 and cfg = site_a
      and env = "(Rejected err_notfound, discord_up)"]
  note v = transition_notifications [where acc = "([], bot_init)" and i = 0 and cfg = site_a
      and env = "(Rejected err_notfound, discord_up)"]
  have p: "prevState_of (lastWebsiteStates bot_a_down) (getWebsiteKey site_a 0) = Known Down"
    using t s by simp
  have q: "prevState_of (lastWebsiteStates bot_init) (getWebsiteKey site_a 0) = Known Ok"
    by (simp add: key_site_a bot_init_def prevState_of_def object_prototype_props_def)
  have a: "list_ex is_recovery
      (new_events bot_a_down (snd (website_step 0 site_a (Response 200, discord_up) ([], bot_a_down))))"
    using t p site_a_ok by simp
  have b: "\<not> list_ex is_problem
      (new_events bot_a_down (snd (website_step 0 site_a (Response 200, discord_up) ([], bot_a_down))))"
    using t p site_a_ok by simp
  have c: "\<not> list_ex is_problem
      (new_events bot_a_down
         (snd (website_step 0 site_a (Rejected err_notfound, discord_up) ([], bot_a_down))))"
    using u p site_a_unreachable by simp
  have d: "list_ex is_problem
      (new_events bot_init (snd (website_step 0 site_a (Rejected err_notfound, discord_up) ([], bot_init))))"
    using v q site_a_unreachable by simp
  show ?thesis using s p a b c d by blast
qed

subsection \<open>Keys that have never been stored\<close>

lemma first_seen_plain_key:
  "m key = None \<Longrightarrow> key \<notin> set object_prototype_props \<Longrightarrow> prevState_of m key = Known Ok"
  by (simp add: prevState_of_def)

lemma derived_key_not_inherited:
  "w_id cfg = None \<or> w_id cfg = Some [] \<Longrightarrow> getWebsiteKey cfg i \<notin> set object_prototype_props"
proof -
  assume a: "w_id cfg = None \<or> w_id cfg = Some []"
  have "CHR '':'' \<in> set (getWebsiteKey cfg i)"
    using a by (auto simp: getWebsiteKey_def str_or_def)
  moreover have "\<forall>k \<in> set object_prototype_props. CHR '':'' \<notin> set k"
    by (simp add: object_prototype_props_def)
  ultimately show ?thesis by blast
qed

lemma first_seen_problem:
  "lastWebsiteStates (snd acc) (getWebsiteKey cfg i) = None \<Longrightarrow>
   res_state (checkWebsite cfg (fst env)) \<noteq> Ok \<Longrightarrow>
   filter is_alert (new_events (snd acc) (snd (website_step i cfg env acc)))
     = [ProblemAlert cfg (checkWebsite cfg (fst env))]"
  unfolding step_alerts
  by (auto simp: prevState_of_def)

lemma key_constructor: "getWebsiteKey site_constructor 0 = ''constructor''"
  by (simp add: getWebsiteKey_def site_constructor_def str_or_def)

text \<open>
  Claim C6. A key that was never stored is to read as \<open>Ok\<close>. \<^verbatim>\<open>lastWebsiteStates\<close> is a plain
  object, so a key that names a property of \<^verbatim>\<open>Object.prototype\<close> reads as the inherited
  value instead. For a website whose configured \<^verbatim>\<open>id\<close> is \<^verbatim>\<open>constructor\<close>, nothing is stored
  before the first cycle, \<open>prevState\<close> is not \<open>Ok\<close>, and a first check that finds the site
  healthy invokes the recovery alert.
\<close>

theorem first_seen_inherited_key:
  "lastWebsiteStates bot_init (getWebsiteKey site_constructor 0) = None
 \<and> prevState_of (lastWebsiteStates bot_init) (getWebsiteKey site_constructor 0) = Inherited
 \<and> res_state (checkWebsite site_constructor (Response 200)) = Ok
 \<and> filter is_alert (new_events bot_init
      (snd (website_step 0 site_constructor (Response 200, discord_up) ([], bot_init))))
    = [RecoveryAlert site_constructor (checkWebsite site_constructor (Response 200))]"
proof -
  have p: "prevState_of (lastWebsiteStates bot_init) (getWebsiteKey site_constructor 0) = Inherited"
    by (simp add: key_constructor prevState_of_def bot_init_def object_prototype_props_def)
  have r: "res_state (checkWebsite site_constructor (Response 200)) = Ok"
    by (simp add: checkWebsite_def site_constructor_def lower_site_a startsWith_def)
  have "filter is_alert (new_events bot_init
      (snd (website_step 0 site_constructor (Response 200, discord_up) ([], bot_init))))
    = [RecoveryAlert site_constructor (checkWebsite site_constructor (Response 200))]"
    using step_alerts [where acc = "([], bot_init)" and i = 0 and cfg = site_constructor
        and env = "(Response 200, discord_up)"] p r
    by simp
  moreover have "lastWebsiteStates bot_init (getWebsiteKey site_constructor 0) = None"
    by (simp add: bot_init_def)
  ultimately show ?thesis using p r by simp
qed

section \<open>The status message\<close>

text \<open>
  Claim C8, as stated: the handle of the status message is created on the first cycle.
  With Discord reachable at start, the \<^verbatim>\<open>ready\<close> handler stores the greeting as status
  message before the first cycle runs, and the first cycle edits the greeting and sends
  nothing.
\<close>

theorem greeting_is_first_handle:
  "statusMessage (on_ready ''hello'' discord_up bot_init) = Some 1
 \<and> map_option events (first_cycle no_config ''hello'' discord_up quiet_env)
     = Some [UsersFetch, OwnerSend ''hello'', MessageEdit 1 ''footer'']
 \<and> map_option statusMessage (first_cycle no_config ''hello'' discord_up quiet_env) = Some (Some 1)"
  by (simp add: first_cycle_def on_ready_def discord_up_def bot_init_def log_event_def
      doMonitoringCycle_def website_section_def port_section_def no_config_def quiet_env_def
      pushReport_def)

text \<open>
  Claim C8, amended. The handle is created by the greeting of the \<^verbatim>\<open>ready\<close> handler or,
  when there is none, by the report itself. A cycle edits the existing message and keeps
  its handle when the edit succeeds. When the edit fails, the report is sent as a new
  message and, when that send succeeds, the new message becomes the handle.
\<close>

theorem status_handle_reuse:
  "(statusMessage st = Some h \<and> dm_edit env \<longrightarrow>
      pushReport content env st = Normal (log_event (MessageEdit h content) st)
      \<and> statusMessage (log_event (MessageEdit h content) st) = Some h)
 \<and> (statusMessage st = Some h \<and> \<not> dm_edit env \<and> (ownerUser st \<or> dm_fetch env)
        \<and> dm_send env = Some h' \<longrightarrow>
      (\<exists>st'. pushReport content env st = Normal st' \<and> statusMessage st' = Some h'
          \<and> MessageEdit h content \<in> set (new_events st st')
          \<and> OwnerSend content \<in> set (new_events st st')))
 \<and> (statusMessage st = None \<and> (ownerUser st \<or> dm_fetch env) \<and> dm_send env = Some h' \<longrightarrow>
      (\<exists>st'. pushReport content env st = Normal st' \<and> statusMessage st' = Some h'
          \<and> OwnerSend content \<in> set (new_events st st')))
 \<and> (dm_fetch renv \<and> dm_send renv = Some h0 \<longrightarrow>
      statusMessage (on_ready greeting renv bot_init) = Some h0)"
  by (auto simp: pushReport_def send_status_def log_event_def new_events_def on_ready_def Let_def)

theorem status_handle_reuse_witness:
  "statusMessage bot_a_down = Some 1 \<and> dm_edit discord_up
 \<and> pushReport ''report'' discord_up bot_a_down
     = Normal (log_event (MessageEdit 1 ''report'') bot_a_down)
 \<and> \<not> dm_edit discord_edit_fails \<and> ownerUser bot_a_down \<and> dm_send discord_edit_fails = Some 2
 \<and> (\<exists>st'. pushReport ''report'' discord_edit_fails bot_a_down = Normal st'
        \<and> statusMessage st' = Some 2)
 \<and> statusMessage bot_init = None \<and> dm_fetch discord_up \<and> dm_send discord_up = Some 1
 \<and> (\<exists>st'. pushReport ''report'' discord_up bot_init = Normal st' \<and> statusMessage st' = Some 1)
 \<and> statusMessage (on_ready ''hello'' discord_up bot_init) = Some 1"
proof -
  have a: "statusMessage bot_a_down = Some 1" "ownerUser bot_a_down"
    "statusMessage bot_init = None"
    by (simp_all add: bot_a_down_def bot_init_def)
  have b: "dm_edit discord_up" "dm_fetch discord_up" "dm_send discord_up = Some 1"
    "\<not> dm_edit discord_edit_fails" "dm_send discord_edit_fails = Some 2"
    by (simp_all add: discord_up_def discord_edit_fails_def)
  note t = status_handle_reuse [where st = bot_a_down and h = 1 and env = discord_up
      and content = "''report''" and h' = 1 and renv = discord_up and h0 = 1
      and greeting = "''hello''"]
  note u = status_handle_reuse [where st = bot_a_down and h = 1 and env = discord_edit_fails
      and content = "''report''" and h' = 2 and renv = discord_up and h0 = 1
      and greeting = "''hello''"]
  note v = status_handle_reuse [where st = bot_init and h = 1 and env = discord_up
      and content = "''report''" and h' = 1 and renv = discord_up and h0 = 1
      and greeting = "''hello''"]
  have c: "pushReport ''report'' discord_up bot_a_down
     = Normal (log_event (MessageEdit 1 ''report'') bot_a_down)"
    using t a b by blast
  have d: "\<exists>st'. pushReport ''report'' discord_edit_fails bot_a_down = Normal st'
        \<and> statusMessage st' = Some 2"
    using u a b by blast
  have e: "\<exists>st'. pushReport ''report'' discord_up bot_init = Normal st' \<and> statusMessage st' = Some 1"
    using v a b by blast
  have f: "statusMessage (on_ready ''hello'' discord_up bot_init) = Some 1"
    using t b by blast
  show ?thesis using a b c d e f by blast
qed

section \<open>Timing of the cycles\<close>

lemma cycle_starts_apart:
  "0 < k \<Longrightarrow> cycle_start c (Suc k) = cycle_start c k + interval_ms c"
  by (simp add: cycle_start_def)

text \<open>The awaited first cycle has ended before the timer is set.\<close>

lemma first_cycle_never_overlaps: "0 < k \<Longrightarrow> \<not> cycles_overlap c 0 k"
  by (simp add: cycles_overlap_def cycle_start_def cycle_end_def interval_set_at_def)

text \<open>A timed cycle that takes longer than the interval is still running at the next tick.\<close>

lemma slow_cycle_overlaps:
  "0 < k \<Longrightarrow> 0 < interval_ms c \<Longrightarrow> interval_ms c < took c k \<Longrightarrow>
   cycles_overlap c k (Suc k)"
  by (simp add: cycles_overlap_def cycle_start_def cycle_end_def)

lemma later_start:
  assumes "0 < j" and "j < k"
  shows "cycle_start c j + interval_ms c \<le> cycle_start c k"
proof -
  have "Suc j \<le> k" using assms by simp
  then have "Suc j * interval_ms c \<le> k * interval_ms c"
    by (rule mult_le_mono1)
  then show ?thesis using assms by (simp add: cycle_start_def)
qed

text \<open>Cycles that all finish within the interval do not overlap.\<close>

lemma quick_cycles_never_overlap:
  assumes "\<forall>k. took c k \<le> interval_ms c" and "j < k"
  shows "\<not> cycles_overlap c j k"
proof (cases "j = 0")
  case True
  then show ?thesis using assms(2) first_cycle_never_overlaps by simp
next
  case False
  then have "cycle_start c j + interval_ms c \<le> cycle_start c k"
    using assms(2) later_start by simp
  moreover have "cycle_end c j \<le> cycle_start c j + interval_ms c"
    using assms(1) by (simp add: cycle_end_def)
  ultimately show ?thesis by (simp add: cycles_overlap_def)
qed

text \<open>
  Claim C2. Cycles are never to overlap, and a slow cycle is to push out the start of the
  next one. The timer does not wait for the promise of the cycle it started. With an
  interval of 1000 ms and cycles that take 5000 ms, the first timed cycle runs from 6000
  to 11000, the second starts at 7000, one interval after the first and while it is still
  running, and at 10500 five cycles are running at once.
\<close>

theorem slow_cycles_overlap:
  "cycle_start slow_clock 1 = 6000
 \<and> cycle_end slow_clock 1 = 11000
 \<and> cycle_start slow_clock 2 = 7000
 \<and> cycles_overlap slow_clock 1 2
 \<and> in_flight slow_clock 20 10500 = [1, 2, 3, 4, 5]"
proof -
  have a: "cycle_start slow_clock 1 = 6000" "cycle_end slow_clock 1 = 11000"
    "cycle_start slow_clock 2 = 7000" "cycles_overlap slow_clock 1 2"
    by (simp_all add: cycles_overlap_def cycle_start_def cycle_end_def interval_set_at_def
        slow_clock_def)
  have u: "[0..<20] = [0, 1, 2, 3, 4, 5, 6, 7, 8, 9, 10, 11, 12, 13, 14, 15, 16, 17, 18, 19]"
    by (simp add: upt_rec)
  have b: "in_flight slow_clock 20 10500 = [1, 2, 3, 4, 5]"
    by (simp add: in_flight_def u cycle_start_def cycle_end_def interval_set_at_def
        slow_clock_def)
  show ?thesis using a b by simp
qed

end
